theory Spec2Isabelle
  imports Complex_Main "HOL-Library.Word"
begin

section \<open>Shared types\<close>

text \<open>
  The audio pipeline of one session: \<^verbatim>\<open>cascade/stream/state_machine.py\<close> (class
  \<^verbatim>\<open>VADStateMachine\<close>) and \<^verbatim>\<open>cascade/stream/processor.py\<close> (class
  \<^verbatim>\<open>StreamProcessor\<close>). Mutation of \<^verbatim>\<open>self\<close> is explicit state passing; a raised
  exception is an \<open>Inl\<close> value returned together with the state as it was when the
  exception left the function, because Python keeps the mutations made before a raise.

  Wall-clock measurements (\<^verbatim>\<open>time.time()\<close>) are inputs of the model where the code stores
  them and are left out where it only reports them: a result's \<^verbatim>\<open>processing_time_ms\<close> and the
  processor's \<^verbatim>\<open>_last_process_time\<close> have no counterpart. The admission semaphore is not
  modelled: one caller submits chunks one after the other.
\<close>

type_synonym byte = "8 word"

text \<open>\<^verbatim>\<open>SystemState\<close>, the conversational state owned by the interruption manager.\<close>

datatype SystemState = SYS_IDLE | SYS_COLLECTING | SYS_PROCESSING | SYS_RESPONDING

text \<open>\<^verbatim>\<open>VADState\<close> (state_machine.py, lines 21-24).\<close>

datatype VADState = IDLE | COLLECTING

text \<open>
  The verdict of the oracle for one frame: Python \<^verbatim>\<open>None\<close>, or a dict that the state
  machine tests by key membership (\<^verbatim>\<open>{'start': t}\<close>, \<^verbatim>\<open>{'end': t}\<close>).
\<close>

type_synonym vad_result = "(string \<rightharpoonup> int) option"

text \<open>
  \<^verbatim>\<open>AudioFrame\<close> as the processor constructs it (processor.py, lines 237-242). The source
  computes \<^verbatim>\<open>timestamp_ms = frame_counter * 32.0\<close>, a float with an integral value; the model
  keeps the value as an integer number of milliseconds.
\<close>

record AudioFrame =
  frame_id :: int
  audio_data :: "byte list"
  timestamp_ms :: int
  vad_result :: vad_result

text \<open>
  \<^verbatim>\<open>InterruptionEvent\<close>: the two fields that \<^verbatim>\<open>verify_interruption.py\<close> reads
  (\<^verbatim>\<open>timestamp_ms\<close>, \<^verbatim>\<open>system_state\<close>).
\<close>

record InterruptionEvent =
  event_timestamp_ms :: int
  system_state :: SystemState

text \<open>
  Modelled from the spec: the segment type of \<^verbatim>\<open>cascade/stream/types.py\<close>, which is not among
  the sources. Section 3 of the specification: a segment has an id, the ordered frames, the
  timestamps of the first and last frame, and their difference as duration.
\<close>

record SpeechSegment =
  seg_id :: int
  seg_frames :: "AudioFrame list"
  start_timestamp_ms :: int
  end_timestamp_ms :: int
  duration_ms :: int

text \<open>
  \<^verbatim>\<open>CascadeResult\<close> with the fields the state machine passes to its constructor
  (state_machine.py, lines 126-132, 174-181, 212-218), without \<^verbatim>\<open>processing_time_ms\<close>.
\<close>

record CascadeResult =
  result_type :: string
  frame :: "AudioFrame option"
  segment :: "SpeechSegment option"
  interruption :: "InterruptionEvent option"
  instance_id :: string

text \<open>
  Modelled from the spec: the property \<^verbatim>\<open>CascadeResult.is_speech_segment\<close> of types.py, which
  is not among the sources; a segment-level result is one tagged \<^verbatim>\<open>"segment"\<close>.
\<close>

definition is_speech_segment :: "CascadeResult \<Rightarrow> bool" where
  "is_speech_segment r = (result_type r = ''segment'')"

text \<open>\<^verbatim>\<open>ErrorCode\<close>: the codes that processor.py attaches to a \<^verbatim>\<open>CascadeError\<close>.\<close>

datatype ErrorCode =
    INVALID_CONFIG | INITIALIZATION_FAILED | INVALID_STATE | PROCESSING_FAILED
  | INVALID_INPUT | AUDIO_CORRUPTION | CLEANUP_FAILED

text \<open>
  Exceptions. \<open>CascadeError\<close> is the one the processor raises itself; the others stand for
  what its collaborators raise inside the \<^verbatim>\<open>try\<close> block of \<^verbatim>\<open>_process_chunk_internal\<close>.
\<close>

datatype exn =
    CascadeError ErrorCode
  | VADInferenceError
  | BufferFullError
  | CollectorStateError
  | NoneNotCallable

section \<open>FrameAlignedBuffer\<close>

text \<open>
  Modelled from the spec: \<^verbatim>\<open>cascade/buffer/frame_aligned_buffer.py\<close> is not among the sources.
  Section 4.1 of the specification: \<^verbatim>\<open>write\<close> appends bytes, \<^verbatim>\<open>read_frame\<close> removes exactly
  one frame of 512 samples (two bytes each) from the front and leaves the rest,
  \<^verbatim>\<open>clear\<close> discards everything, and exceeding the capacity is a fault the caller observes.
\<close>

definition AUDIO_FRAME_SIZE :: nat where
  "AUDIO_FRAME_SIZE = 512"

definition frame_size_bytes :: nat where
  "frame_size_bytes = AUDIO_FRAME_SIZE * 2"

record FrameAlignedBuffer =
  buffer :: "byte list"
  max_buffer_samples :: nat

definition FrameAlignedBuffer_init :: "nat \<Rightarrow> FrameAlignedBuffer" where
  "FrameAlignedBuffer_init n = \<lparr>buffer = [], max_buffer_samples = n\<rparr>"

definition buffer_write :: "FrameAlignedBuffer \<Rightarrow> byte list \<Rightarrow> exn + FrameAlignedBuffer" where
  "buffer_write b audio =
     (if length (buffer b) + length audio > max_buffer_samples b * 2
      then Inl BufferFullError
      else Inr (b\<lparr>buffer := buffer b @ audio\<rparr>))"

definition has_complete_frame :: "FrameAlignedBuffer \<Rightarrow> bool" where
  "has_complete_frame b = (frame_size_bytes \<le> length (buffer b))"

definition read_frame :: "FrameAlignedBuffer \<Rightarrow> byte list option \<times> FrameAlignedBuffer" where
  "read_frame b =
     (if has_complete_frame b
      then (Some (take frame_size_bytes (buffer b)),
            b\<lparr>buffer := drop frame_size_bytes (buffer b)\<rparr>)
      else (None, b))"

definition clear :: "FrameAlignedBuffer \<Rightarrow> FrameAlignedBuffer" where
  "clear b = b\<lparr>buffer := []\<rparr>"

section \<open>SpeechCollector\<close>

text \<open>
  Modelled from the spec: \<^verbatim>\<open>cascade/stream/collector.py\<close> is not among the sources. Section 4.2
  of the specification: \<^verbatim>\<open>start_collection\<close> begins a segment with the frame as first member,
  \<^verbatim>\<open>add_frame\<close> appends, \<^verbatim>\<open>end_collection\<close> appends the frame as last member and returns the
  finalized segment, \<^verbatim>\<open>reset\<close> discards the frames; \<^verbatim>\<open>add_frame\<close> and \<^verbatim>\<open>end_collection\<close>
  without an active collection are programming errors, here an exception.
\<close>

record SpeechCollector =
  segment_id :: int
  frames :: "AudioFrame list"
  collecting :: bool

definition SpeechCollector_init :: "int \<Rightarrow> SpeechCollector" where
  "SpeechCollector_init n = \<lparr>segment_id = n, frames = [], collecting = False\<rparr>"

definition start_collection :: "SpeechCollector \<Rightarrow> AudioFrame \<Rightarrow> SpeechCollector" where
  "start_collection c f = c\<lparr>frames := [f], collecting := True\<rparr>"

definition add_frame :: "SpeechCollector \<Rightarrow> AudioFrame \<Rightarrow> exn + SpeechCollector" where
  "add_frame c f =
     (if collecting c then Inr (c\<lparr>frames := frames c @ [f]\<rparr>) else Inl CollectorStateError)"

definition make_segment :: "int \<Rightarrow> AudioFrame list \<Rightarrow> SpeechSegment" where
  "make_segment n fs =
     \<lparr>seg_id = n, seg_frames = fs,
      start_timestamp_ms = timestamp_ms (hd fs),
      end_timestamp_ms = timestamp_ms (last fs),
      duration_ms = timestamp_ms (last fs) - timestamp_ms (hd fs)\<rparr>"

definition end_collection :: "SpeechCollector \<Rightarrow> AudioFrame \<Rightarrow> exn + SpeechSegment" where
  "end_collection c f =
     (if collecting c then Inr (make_segment (segment_id c) (frames c @ [f]))
      else Inl CollectorStateError)"

definition collector_reset :: "SpeechCollector \<Rightarrow> SpeechCollector" where
  "collector_reset c = c\<lparr>frames := [], collecting := False\<rparr>"

section \<open>InterruptionManager\<close>

text \<open>
  \<^verbatim>\<open>cascade/stream/interruption_manager.py\<close> is not among the sources. The state machine
  calls three of its methods; they are parameters of the model, over any type \<open>'m\<close> of
  manager states, so that every theorem holds whatever the manager decides.
  \<open>on_speech_start\<close> returns the interruption event, if any, and the manager's new state.
\<close>

record 'm InterruptionManager =
  on_speech_start :: "'m \<Rightarrow> int \<Rightarrow> InterruptionEvent option \<times> 'm"
  on_speech_end :: "'m \<Rightarrow> int \<Rightarrow> 'm"
  get_state :: "'m \<Rightarrow> SystemState"

section \<open>VADStateMachine\<close>

text \<open>
  The fields of \<^verbatim>\<open>VADStateMachine.__init__\<close> (state_machine.py, lines 45-49). The manager
  object is shared with the processor; its state is kept once, here. \<open>None\<close> is a state
  machine built without a manager. The truth tests \<^verbatim>\<open>if self.interruption_manager\<close>,
  \<^verbatim>\<open>self.current_collector\<close>, \<^verbatim>\<open>if interruption_event\<close> and \<^verbatim>\<open>if result\<close> are tests against
  \<^verbatim>\<open>None\<close>: these are plain objects.
\<close>

record 'm VADStateMachine =
  sm_instance_id :: string
  state :: VADState
  current_collector :: "SpeechCollector option"
  segment_counter :: int
  interruption_manager :: "'m option"

definition VADStateMachine_init :: "string \<Rightarrow> 'm option \<Rightarrow> 'm VADStateMachine" where
  "VADStateMachine_init iid mgr =
     \<lparr>sm_instance_id = iid, state = IDLE, current_collector = None,
      segment_counter = 0, interruption_manager = mgr\<rparr>"

type_synonym 'm sm_outcome = "(exn + CascadeResult option) \<times> 'm VADStateMachine"

text \<open>\<^verbatim>\<open>_handle_no_speech\<close> (state_machine.py, lines 109-132).\<close>

definition handle_no_speech :: "'m VADStateMachine \<Rightarrow> AudioFrame \<Rightarrow> 'm sm_outcome" where
  "handle_no_speech sm fr =
     (if state sm = COLLECTING \<and> current_collector sm \<noteq> None
      then (case add_frame (the (current_collector sm)) fr of
              Inl e \<Rightarrow> (Inl e, sm)
            | Inr c \<Rightarrow> (Inr None, sm\<lparr>current_collector := Some c\<rparr>))
      else (Inr (Some \<lparr>result_type = ''frame'', frame = Some fr, segment = None,
                       interruption = None, instance_id = sm_instance_id sm\<rparr>), sm))"

text \<open>
  \<^verbatim>\<open>_handle_speech_start\<close>, lines 159-183: what follows the gatekeeper, with the
  interruption event that the manager returned.
\<close>

definition begin_collecting ::
  "'m VADStateMachine \<Rightarrow> InterruptionEvent option \<Rightarrow> AudioFrame \<Rightarrow> 'm sm_outcome" where
  "begin_collecting sm interruption_event fr =
     (if state sm = COLLECTING then (Inr None, sm)
      else
        (let n = segment_counter sm + 1;
             sm' = sm\<lparr>segment_counter := n,
                      current_collector := Some (start_collection (SpeechCollector_init n) fr),
                      state := COLLECTING\<rparr>
         in case interruption_event of
              Some ev \<Rightarrow>
                (Inr (Some \<lparr>result_type = ''interruption'', frame = None, segment = None,
                            interruption = Some ev, instance_id = sm_instance_id sm\<rparr>), sm')
            | None \<Rightarrow> (Inr None, sm')))"

text \<open>\<^verbatim>\<open>_handle_speech_start\<close> (state_machine.py, lines 134-183).\<close>

definition handle_speech_start ::
  "'m InterruptionManager \<Rightarrow> 'm VADStateMachine \<Rightarrow> AudioFrame \<Rightarrow> 'm sm_outcome" where
  "handle_speech_start mgr sm fr =
     (case interruption_manager sm of
        None \<Rightarrow> begin_collecting sm None fr
      | Some m \<Rightarrow>
          (case on_speech_start mgr m (timestamp_ms fr) of
             (interruption_event, m') \<Rightarrow>
               (let sm1 = sm\<lparr>interruption_manager := Some m'\<rparr>
                in if get_state mgr m' \<noteq> SYS_COLLECTING then (Inr None, sm1)
                   else begin_collecting sm1 interruption_event fr)))"

text \<open>\<^verbatim>\<open>_handle_speech_end\<close> (state_machine.py, lines 185-218).\<close>

definition handle_speech_end ::
  "'m InterruptionManager \<Rightarrow> 'm VADStateMachine \<Rightarrow> AudioFrame \<Rightarrow> 'm sm_outcome" where
  "handle_speech_end mgr sm fr =
     (let sm1 = (case interruption_manager sm of
                   None \<Rightarrow> sm
                 | Some m \<Rightarrow>
                     sm\<lparr>interruption_manager := Some (on_speech_end mgr m (timestamp_ms fr))\<rparr>)
      in if state sm1 \<noteq> COLLECTING \<or> current_collector sm1 = None then (Inr None, sm1)
         else (case end_collection (the (current_collector sm1)) fr of
                 Inl e \<Rightarrow> (Inl e, sm1)
               | Inr seg \<Rightarrow>
                   (Inr (Some \<lparr>result_type = ''segment'', frame = None, segment = Some seg,
                               interruption = None, instance_id = sm_instance_id sm\<rparr>),
                    sm1\<lparr>state := IDLE, current_collector := None\<rparr>)))"

text \<open>\<^verbatim>\<open>_handle_vad_result\<close> (state_machine.py, lines 81-107).\<close>

definition handle_vad_result ::
  "'m InterruptionManager \<Rightarrow> 'm VADStateMachine \<Rightarrow> AudioFrame \<Rightarrow> 'm sm_outcome" where
  "handle_vad_result mgr sm fr =
     (case vad_result fr of
        None \<Rightarrow> handle_no_speech sm fr
      | Some d \<Rightarrow>
          if ''start'' \<in> dom d then handle_speech_start mgr sm fr
          else if ''end'' \<in> dom d then handle_speech_end mgr sm fr
          else handle_no_speech sm fr)"

text \<open>
  \<^verbatim>\<open>process_frame\<close> (state_machine.py, lines 53-79): the result of \<^verbatim>\<open>_handle_vad_result\<close>,
  to which the source adds the elapsed time and the instance id; an exception is logged and
  raised again.
\<close>

definition process_frame ::
  "'m InterruptionManager \<Rightarrow> 'm VADStateMachine \<Rightarrow> AudioFrame \<Rightarrow> 'm sm_outcome" where
  "process_frame mgr sm fr =
     (case handle_vad_result mgr sm fr of
        (Inr (Some r), sm') \<Rightarrow> (Inr (Some (r\<lparr>instance_id := sm_instance_id sm'\<rparr>)), sm')
      | other \<Rightarrow> other)"

text \<open>\<^verbatim>\<open>reset\<close> (state_machine.py, lines 220-229).\<close>

definition reset :: "'m VADStateMachine \<Rightarrow> 'm VADStateMachine" where
  "reset sm = sm\<lparr>state := IDLE, current_collector := None, segment_counter := 0\<rparr>"

text \<open>
  The states a state machine can be in: built by the constructor, then any sequence of
  \<^verbatim>\<open>process_frame\<close> (returning or raising) and \<^verbatim>\<open>reset\<close> calls, while the owner of the manager
  may change the manager's state at any time (\<^verbatim>\<open>set_system_state\<close>).
\<close>

inductive reachable :: "'m InterruptionManager \<Rightarrow> 'm VADStateMachine \<Rightarrow> bool"
  for mgr :: "'m InterruptionManager" where
  init: "reachable mgr (VADStateMachine_init iid m)"
| frame: "reachable mgr sm \<Longrightarrow> process_frame mgr sm fr = (out, sm') \<Longrightarrow> reachable mgr sm'"
| reset: "reachable mgr sm \<Longrightarrow> reachable mgr (reset sm)"
| manager: "reachable mgr sm \<Longrightarrow> interruption_manager sm \<noteq> None
            \<Longrightarrow> reachable mgr (sm\<lparr>interruption_manager := Some m'\<rparr>)"

section \<open>StreamProcessor\<close>

text \<open>
  The oracle (\<^verbatim>\<open>silero_vad.VADIterator\<close>) is external and stateful: a parameter of the model,
  over any type \<open>'o\<close> of oracle states. Called on the bytes of one frame it returns a
  verdict or raises, and moves to its next state either way.
\<close>

type_synonym 'o vad_oracle = "'o \<Rightarrow> byte list \<Rightarrow> (exn + vad_result) \<times> 'o"

text \<open>
  The fields of \<^verbatim>\<open>StreamProcessor.__init__\<close> (processor.py, lines 78-110); the torch model
  is part of the oracle, and the manager is the one inside the state machine.
  \<open>frame_log\<close> is a history variable with no counterpart in the source: it records every
  \<^verbatim>\<open>AudioFrame\<close> the processor constructs, in order, and the model never reads it.
\<close>

record ('m, 'o) StreamProcessor =
  frame_buffer :: FrameAlignedBuffer
  state_machine :: "'m VADStateMachine"
  vad_iterator :: "'o option"
  frame_counter :: int
  total_chunks_processed :: int
  total_processing_time_ms :: real
  speech_segments_count :: int
  single_frames_count :: int
  error_count :: int
  processing_times :: "real list"
  is_initialized :: bool
  frame_log :: "AudioFrame list"

definition MAX_CHUNK_SIZE :: nat where
  "MAX_CHUNK_SIZE = 512 * 1024"

definition max_processing_times :: nat where
  "max_processing_times = 100"

text \<open>\<^verbatim>\<open>__init__\<close> (processor.py, lines 64-112), for a manager in state \<open>m\<close>.\<close>

definition StreamProcessor_init :: "'m \<Rightarrow> ('m, 'o) StreamProcessor" where
  "StreamProcessor_init m =
     \<lparr>frame_buffer = FrameAlignedBuffer_init 128000,
      state_machine = VADStateMachine_init ''stream_processor'' (Some m),
      vad_iterator = None,
      frame_counter = 0,
      total_chunks_processed = 0,
      total_processing_time_ms = 0,
      speech_segments_count = 0,
      single_frames_count = 0,
      error_count = 0,
      processing_times = [],
      is_initialized = False,
      frame_log = []\<rparr>"

type_synonym ('m, 'o, 'a) outcome = "(exn + 'a) \<times> ('m, 'o) StreamProcessor"

text \<open>
  \<^verbatim>\<open>initialize\<close> (processor.py, lines 123-161); \<open>loaded\<close> is what loading the model gives:
  a fresh oracle, or \<open>None\<close> when loading raises.
\<close>

definition initialize :: "('m, 'o) StreamProcessor \<Rightarrow> 'o option \<Rightarrow> ('m, 'o, unit) outcome" where
  "initialize s loaded =
     (if is_initialized s then (Inr (), s)
      else (case loaded of
              None \<Rightarrow> (Inl (CascadeError INITIALIZATION_FAILED), s)
            | Some it \<Rightarrow> (Inr (), s\<lparr>vad_iterator := Some it, is_initialized := True\<rparr>)))"

text \<open>\<^verbatim>\<open>_validate_audio_chunk\<close> (processor.py, lines 456-496).\<close>

definition validate_audio_chunk :: "byte list \<Rightarrow> exn + unit" where
  "validate_audio_chunk audio =
     (let data_size = length audio
      in if data_size = 0 then Inr ()
         else if data_size > MAX_CHUNK_SIZE then Inl (CascadeError INVALID_INPUT)
         else if data_size mod 2 \<noteq> 0 then Inl (CascadeError AUDIO_CORRUPTION)
         else Inr ())"

text \<open>\<^verbatim>\<open>_record_processing_time\<close> (processor.py, lines 498-504).\<close>

definition record_processing_time ::
  "('m, 'o) StreamProcessor \<Rightarrow> real \<Rightarrow> ('m, 'o) StreamProcessor" where
  "record_processing_time s t =
     (let ts = processing_times s @ [t]
      in s\<lparr>processing_times := (if length ts > max_processing_times then tl ts else ts)\<rparr>)"

text \<open>
  The body of the loop of \<^verbatim>\<open>_process_chunk_internal\<close> for the bytes of one frame
  (processor.py, lines 217-253): the oracle call, the frame, the state machine, the counters.
\<close>

definition process_frame_data ::
  "'m InterruptionManager \<Rightarrow> 'o vad_oracle \<Rightarrow> ('m, 'o) StreamProcessor \<Rightarrow> byte list
   \<Rightarrow> ('m, 'o, CascadeResult option) outcome" where
  "process_frame_data mgr vad s frame_data =
     (case vad_iterator s of
        None \<Rightarrow> (Inl NoneNotCallable, s)
      | Some it \<Rightarrow>
          (case vad it frame_data of
             (Inl e, it') \<Rightarrow> (Inl e, s\<lparr>vad_iterator := Some it'\<rparr>)
           | (Inr verdict, it') \<Rightarrow>
               (let s1 = s\<lparr>vad_iterator := Some it', frame_counter := frame_counter s + 1\<rparr>;
                    fr = \<lparr>frame_id = frame_counter s1, audio_data = frame_data,
                          timestamp_ms = frame_counter s1 * 32, vad_result = verdict\<rparr>;
                    s2 = s1\<lparr>frame_log := frame_log s1 @ [fr]\<rparr>
                in case process_frame mgr (state_machine s2) fr of
                     (Inl e, sm) \<Rightarrow> (Inl e, s2\<lparr>state_machine := sm\<rparr>)
                   | (Inr None, sm) \<Rightarrow> (Inr None, s2\<lparr>state_machine := sm\<rparr>)
                   | (Inr (Some r), sm) \<Rightarrow>
                       (Inr (Some r),
                        (if is_speech_segment r
                         then s2\<lparr>state_machine := sm,
                                 speech_segments_count := speech_segments_count s2 + 1\<rparr>
                         else s2\<lparr>state_machine := sm,
                                 single_frames_count := single_frames_count s2 + 1\<rparr>)))))"

text \<open>
  The loop of \<^verbatim>\<open>_process_chunk_internal\<close> (processor.py, lines 210-253), with the list of
  results collected so far. An exception leaves the loop with the state as it is.
\<close>

function process_frames ::
  "'m InterruptionManager \<Rightarrow> 'o vad_oracle \<Rightarrow> ('m, 'o) StreamProcessor \<Rightarrow> CascadeResult list
   \<Rightarrow> ('m, 'o, CascadeResult list) outcome" where
  "process_frames mgr vad s results =
     (if has_complete_frame (frame_buffer s)
      then (case read_frame (frame_buffer s) of
              (frame_data, b) \<Rightarrow>
                if frame_data = None \<or> frame_data = Some [] then (Inr results, s\<lparr>frame_buffer := b\<rparr>)
                else (case process_frame_data mgr vad (s\<lparr>frame_buffer := b\<rparr>) (the frame_data) of
                        (Inl e, s') \<Rightarrow> (Inl e, s')
                      | (Inr None, s') \<Rightarrow> process_frames mgr vad s' results
                      | (Inr (Some r), s') \<Rightarrow> process_frames mgr vad s' (results @ [r])))
      else (Inr results, s))"
  by pat_completeness auto
termination
  apply (relation "measure (\<lambda>(mgr, vad, s, results). length (buffer (frame_buffer s)))")
   apply simp
   apply (auto simp: read_frame_def has_complete_frame_def frame_size_bytes_def
      AUDIO_FRAME_SIZE_def process_frame_data_def Let_def
      split: option.splits prod.splits sum.splits if_splits)
  done

declare process_frames.simps [simp del]

text \<open>
  \<^verbatim>\<open>_process_chunk_internal\<close> (processor.py, lines 192-270); \<open>elapsed\<close> is the time the
  source measures for the call. Any exception of the \<^verbatim>\<open>try\<close> block counts as an error and
  becomes a \<^verbatim>\<open>CascadeError\<close> with code \<^verbatim>\<open>PROCESSING_FAILED\<close>.
\<close>

definition process_chunk_internal ::
  "'m InterruptionManager \<Rightarrow> 'o vad_oracle \<Rightarrow> ('m, 'o) StreamProcessor \<Rightarrow> byte list \<Rightarrow> real
   \<Rightarrow> ('m, 'o, CascadeResult list) outcome" where
  "process_chunk_internal mgr vad s audio elapsed =
     (case buffer_write (frame_buffer s) audio of
        Inl e \<Rightarrow> (Inl (CascadeError PROCESSING_FAILED), s\<lparr>error_count := error_count s + 1\<rparr>)
      | Inr b \<Rightarrow>
          (case process_frames mgr vad (s\<lparr>frame_buffer := b\<rparr>) [] of
             (Inl e, s') \<Rightarrow>
               (Inl (CascadeError PROCESSING_FAILED), s'\<lparr>error_count := error_count s' + 1\<rparr>)
           | (Inr results, s') \<Rightarrow>
               (Inr results,
                record_processing_time
                  (s'\<lparr>total_chunks_processed := total_chunks_processed s' + 1,
                      total_processing_time_ms := total_processing_time_ms s' + elapsed\<rparr>)
                  elapsed)))"

text \<open>\<^verbatim>\<open>process_chunk\<close> (processor.py, lines 163-190).\<close>

definition process_chunk ::
  "'m InterruptionManager \<Rightarrow> 'o vad_oracle \<Rightarrow> ('m, 'o) StreamProcessor \<Rightarrow> byte list \<Rightarrow> real
   \<Rightarrow> ('m, 'o, CascadeResult list) outcome" where
  "process_chunk mgr vad s audio elapsed =
     (if vad_iterator s = None then (Inl (CascadeError INVALID_STATE), s)
      else (case validate_audio_chunk audio of
              Inl e \<Rightarrow> (Inl e, s)
            | Inr _ \<Rightarrow> process_chunk_internal mgr vad s audio elapsed))"

text \<open>
  \<^verbatim>\<open>close\<close> (processor.py, lines 344-404). The collaborators as modelled do not raise in
  \<^verbatim>\<open>clear\<close> and \<^verbatim>\<open>reset\<close>, and a failure of the oracle's \<^verbatim>\<open>reset_states\<close> is only logged, so
  the call returns. Clearing an empty buffer changes nothing, so the outcome of the truth
  test \<^verbatim>\<open>if self.frame_buffer\<close> does not matter. The frame counter is not assigned.
\<close>

definition close :: "('m, 'o) StreamProcessor \<Rightarrow> ('m, 'o) StreamProcessor" where
  "close s =
     s\<lparr>vad_iterator := None,
       frame_buffer := clear (frame_buffer s),
       state_machine := reset (state_machine s),
       processing_times := [],
       is_initialized := False\<rparr>"

text \<open>\<^verbatim>\<open>reset_stats\<close> (processor.py, lines 569-577).\<close>

definition reset_stats :: "('m, 'o) StreamProcessor \<Rightarrow> ('m, 'o) StreamProcessor" where
  "reset_stats s =
     s\<lparr>total_chunks_processed := 0,
       total_processing_time_ms := 0,
       speech_segments_count := 0,
       single_frames_count := 0,
       error_count := 0,
       processing_times := []\<rparr>"

text \<open>
  \<^verbatim>\<open>get_stats\<close> (processor.py, lines 506-567). The derived metrics are floats in the source
  and reals here. The log records of the health check are returned as a list, in the order
  the source writes them.
\<close>

record ProcessorStats =
  stats_total_chunks_processed :: int
  stats_total_processing_time_ms :: real
  average_processing_time_ms :: real
  speech_segments :: int
  single_frames :: int
  speech_ratio :: real
  throughput_chunks_per_second :: real
  memory_usage_mb :: real
  stats_error_count :: int
  error_rate :: real

datatype health_warning = SLOW_PROCESSING | HIGH_ERROR_RATE | LOW_THROUGHPUT

definition get_stats :: "('m, 'o) StreamProcessor \<Rightarrow> ProcessorStats \<times> health_warning list" where
  "get_stats s =
     (let avg_processing_time =
            (if total_chunks_processed s > 0
             then total_processing_time_ms s / of_int (total_chunks_processed s) else 0);
          total_results = speech_segments_count s + single_frames_count s;
          ratio = (if total_results > 0
                   then of_int (speech_segments_count s) / of_int total_results else 0);
          throughput =
            (if total_processing_time_ms s > 0
             then of_int (total_chunks_processed s) / (total_processing_time_ms s / 1000)
             else 0);
          rate = (if total_chunks_processed s > 0
                  then of_int (error_count s) / of_int (total_chunks_processed s) else 0);
          memory = (if is_initialized s then 80 else 0);
          warnings =
            (if total_chunks_processed s > 10
             then (if avg_processing_time > 100 then [SLOW_PROCESSING] else [])
                @ (if rate > 5 / 100 then [HIGH_ERROR_RATE] else [])
                @ (if throughput < 10 \<and> total_chunks_processed s > 100
                   then [LOW_THROUGHPUT] else [])
             else [])
      in (\<lparr>stats_total_chunks_processed = total_chunks_processed s,
           stats_total_processing_time_ms = total_processing_time_ms s,
           average_processing_time_ms = avg_processing_time,
           speech_segments = speech_segments_count s,
           single_frames = single_frames_count s,
           speech_ratio = ratio,
           throughput_chunks_per_second = throughput,
           memory_usage_mb = memory,
           stats_error_count = error_count s,
           error_rate = rate\<rparr>, warnings))"

section \<open>Notions used in the statements\<close>

text \<open>
  What holds of the state machine in every state it can be in: it is collecting exactly
  when it holds a collector, and that collector has an active collection.
\<close>

definition sm_inv :: "'m VADStateMachine \<Rightarrow> bool" where
  "sm_inv sm =
     (case current_collector sm of
        None \<Rightarrow> state sm = IDLE
      | Some c \<Rightarrow> state sm = COLLECTING \<and> collecting c)"

text \<open>The frame that the loop reads next, and the buffer after reading it.\<close>

definition next_frame :: "FrameAlignedBuffer \<Rightarrow> byte list" where
  "next_frame b = take frame_size_bytes (buffer b)"

definition rest :: "FrameAlignedBuffer \<Rightarrow> FrameAlignedBuffer" where
  "rest b = b\<lparr>buffer := drop frame_size_bytes (buffer b)\<rparr>"

text \<open>
  The states of a session: built by the constructor, then any sequence of calls of the public
  methods, each of which may return or raise.
\<close>

inductive session ::
  "'m InterruptionManager \<Rightarrow> 'o vad_oracle \<Rightarrow> ('m, 'o) StreamProcessor \<Rightarrow> bool"
  for mgr :: "'m InterruptionManager" and vad :: "'o vad_oracle" where
  created: "session mgr vad (StreamProcessor_init m)"
| initialized: "session mgr vad s \<Longrightarrow> initialize s loaded = (out, s') \<Longrightarrow> session mgr vad s'"
| chunk: "session mgr vad s \<Longrightarrow> process_chunk mgr vad s audio elapsed = (res, s')
          \<Longrightarrow> session mgr vad s'"
| closed: "session mgr vad s \<Longrightarrow> session mgr vad (close s)"
| stats_reset: "session mgr vad s \<Longrightarrow> session mgr vad (reset_stats s)"
| system_state: "session mgr vad s
          \<Longrightarrow> session mgr vad
                (s\<lparr>state_machine := (state_machine s)\<lparr>interruption_manager := Some m'\<rparr>\<rparr>)"

text \<open>The ids of the frames constructed so far are \<open>1, 2, \<dots>\<close> up to the frame counter.\<close>

definition frame_ids_consecutive :: "('m, 'o) StreamProcessor \<Rightarrow> bool" where
  "frame_ids_consecutive s =
     (0 \<le> frame_counter s \<and> map frame_id (frame_log s) = [1..frame_counter s])"

text \<open>Every frame constructed so far has the timestamp \<open>32\<close> times its id.\<close>

definition timestamps_derived :: "('m, 'o) StreamProcessor \<Rightarrow> bool" where
  "timestamps_derived s = list_all (\<lambda>f. timestamp_ms f = frame_id f * 32) (frame_log s)"

text \<open>The complete frames contained in a byte sequence, in the order the loop reads them.\<close>

function complete_frames :: "byte list \<Rightarrow> byte list list" where
  "complete_frames bs =
     (if frame_size_bytes \<le> length bs
      then take frame_size_bytes bs # complete_frames (drop frame_size_bytes bs)
      else [])"
  by pat_completeness auto
termination
  by (relation "measure length") (auto simp: frame_size_bytes_def AUDIO_FRAME_SIZE_def)

declare complete_frames.simps [simp del]

text \<open>The oracle, called on these frames one after the other, raises at one of them.\<close>

fun oracle_fails :: "'o vad_oracle \<Rightarrow> 'o \<Rightarrow> byte list list \<Rightarrow> bool" where
  "oracle_fails vad it [] = False"
| "oracle_fails vad it (fd # fds) =
     (case vad it fd of
        (Inl e, it') \<Rightarrow> True
      | (Inr verdict, it') \<Rightarrow> oracle_fails vad it' fds)"

text \<open>
  The specification's \<^emph>\<open>InputError\<close> (section 7): the two errors of
  \<^verbatim>\<open>_validate_audio_chunk\<close>.
\<close>

definition InputError :: "exn \<Rightarrow> bool" where
  "InputError e = (e = CascadeError INVALID_INPUT \<or> e = CascadeError AUDIO_CORRUPTION)"

text \<open>The ids of the frames carried by the frame-level results of a call.\<close>

definition frame_ids_of :: "exn + CascadeResult list \<Rightarrow> int list" where
  "frame_ids_of out =
     (case out of
        Inl e \<Rightarrow> []
      | Inr rs \<Rightarrow> concat (map (\<lambda>r. case frame r of None \<Rightarrow> [] | Some f \<Rightarrow> [frame_id f]) rs))"

section \<open>Concrete sessions\<close>

text \<open>
  A manager that never enters the collecting state on a speech start, as one that applies a
  back-off policy would.
\<close>

definition rejecting_manager :: "SystemState InterruptionManager" where
  "rejecting_manager =
     \<lparr>on_speech_start = (\<lambda>m t. (None, m)),
      on_speech_end = (\<lambda>m t. if m = SYS_COLLECTING then SYS_IDLE else m),
      get_state = (\<lambda>m. m)\<rparr>"

text \<open>
  Modelled from the spec: the manager of section 4.3 with a debounce window of zero. A speech
  start during processing or responding is an interruption; every speech start enters the
  collecting state, and a speech end leaves it.
\<close>

definition spec_manager :: "SystemState InterruptionManager" where
  "spec_manager =
     \<lparr>on_speech_start = (\<lambda>m t.
         if m = SYS_PROCESSING \<or> m = SYS_RESPONDING
         then (Some \<lparr>event_timestamp_ms = t, system_state = m\<rparr>, SYS_COLLECTING)
         else (None, SYS_COLLECTING)),
      on_speech_end = (\<lambda>m t. if m = SYS_COLLECTING then SYS_IDLE else m),
      get_state = (\<lambda>m. m)\<rparr>"

text \<open>
  An oracle that plays a script: one outcome per call, and no activity once the script is
  used up.
\<close>

fun scripted :: "((exn + vad_result) list) vad_oracle" where
  "scripted [] fd = (Inr None, [])"
| "scripted (x # xs) fd = (x, xs)"

definition silence :: "nat \<Rightarrow> byte list" where
  "silence n = replicate n 0"

definition start_frame :: AudioFrame where
  "start_frame = \<lparr>frame_id = 1, audio_data = [], timestamp_ms = 32,
                  vad_result = Some [''start'' \<mapsto> 0]\<rparr>"

definition end_frame :: AudioFrame where
  "end_frame = \<lparr>frame_id = 2, audio_data = [], timestamp_ms = 64,
                vad_result = Some [''end'' \<mapsto> 0]\<rparr>"

definition unknown_frame :: AudioFrame where
  "unknown_frame = \<lparr>frame_id = 2, audio_data = [], timestamp_ms = 64,
                    vad_result = Some [''speech'' \<mapsto> 0]\<rparr>"

definition idle_machine :: "SystemState VADStateMachine" where
  "idle_machine = VADStateMachine_init ''stream_processor'' (Some SYS_IDLE)"

definition collecting_machine :: "SystemState VADStateMachine" where
  "collecting_machine = snd (process_frame spec_manager idle_machine start_frame)"

text \<open>A session after \<^verbatim>\<open>initialize\<close>, with an oracle that plays \<open>script\<close>.\<close>

definition ready ::
  "(exn + vad_result) list \<Rightarrow> (SystemState, (exn + vad_result) list) StreamProcessor" where
  "ready script = snd (initialize (StreamProcessor_init SYS_IDLE) (Some script))"

text \<open>After one chunk of exactly one frame.\<close>

definition first_chunk :: "(SystemState, (exn + vad_result) list) StreamProcessor" where
  "first_chunk = snd (process_chunk spec_manager scripted (ready []) (silence 1024) 0)"

text \<open>Then closed and initialized again.\<close>

definition reopened :: "(SystemState, (exn + vad_result) list) StreamProcessor" where
  "reopened = snd (initialize (close first_chunk) (Some []))"

text \<open>After a chunk of two frames on the first of which the oracle raised.\<close>

definition after_failure :: "(SystemState, (exn + vad_result) list) StreamProcessor" where
  "after_failure =
     snd (process_chunk spec_manager scripted (ready [Inl VADInferenceError]) (silence 2048) 0)"

text \<open>Before a chunk of two frames on the second of which the oracle raises.\<close>

definition two_frames_second_fails ::
  "(SystemState, (exn + vad_result) list) StreamProcessor" where
  "two_frames_second_fails = ready [Inr None, Inl VADInferenceError]"

text \<open>
  Ten chunks processed in two seconds altogether, and five failed calls beside them.
\<close>

definition ten_chunks :: "(SystemState, (exn + vad_result) list) StreamProcessor" where
  "ten_chunks =
     (StreamProcessor_init SYS_IDLE)
       \<lparr>vad_iterator := Some [], is_initialized := True, total_chunks_processed := 10,
        total_processing_time_ms := 2000, error_count := 5\<rparr>"

section \<open>The state machine\<close>

subsection \<open>Evaluation rules and reachable states\<close>

lemmas machine_simps =
  process_frame_def handle_vad_result_def handle_no_speech_def handle_speech_start_def
  handle_speech_end_def begin_collecting_def start_collection_def SpeechCollector_init_def
  add_frame_def end_collection_def make_segment_def Let_def VADStateMachine_init_def
  idle_machine_def spec_manager_def start_frame_def end_frame_def unknown_frame_def

lemma sm_inv_init: "sm_inv (VADStateMachine_init iid m)"
  by (simp add: sm_inv_def VADStateMachine_init_def)

lemma sm_inv_reset: "sm_inv (reset sm)"
  by (simp add: sm_inv_def reset_def)

lemma sm_inv_manager: "sm_inv (sm\<lparr>interruption_manager := x\<rparr>) = sm_inv sm"
  by (simp add: sm_inv_def split: option.splits)

lemma sm_inv_no_speech:
  "sm_inv sm \<Longrightarrow> handle_no_speech sm fr = (out, sm') \<Longrightarrow> sm_inv sm'"
  by (auto simp: sm_inv_def handle_no_speech_def add_frame_def
      split: option.splits if_splits sum.splits)

lemma sm_inv_begin:
  "sm_inv sm \<Longrightarrow> begin_collecting sm ev fr = (out, sm') \<Longrightarrow> sm_inv sm'"
  by (auto simp: sm_inv_def begin_collecting_def Let_def start_collection_def
      SpeechCollector_init_def split: option.splits if_splits)

lemma sm_inv_start:
  "sm_inv sm \<Longrightarrow> handle_speech_start mgr sm fr = (out, sm') \<Longrightarrow> sm_inv sm'"
  by (auto simp: handle_speech_start_def Let_def sm_inv_manager
      split: option.splits prod.splits if_splits dest: sm_inv_begin [rotated])

lemma sm_inv_end:
  "sm_inv sm \<Longrightarrow> handle_speech_end mgr sm fr = (out, sm') \<Longrightarrow> sm_inv sm'"
  by (auto simp: handle_speech_end_def Let_def sm_inv_def end_collection_def
      split: option.splits if_splits sum.splits)

lemma sm_inv_vad_result:
  "sm_inv sm \<Longrightarrow> handle_vad_result mgr sm fr = (out, sm') \<Longrightarrow> sm_inv sm'"
  unfolding handle_vad_result_def
  by (auto split: option.splits if_splits
      dest: sm_inv_no_speech sm_inv_start sm_inv_end)

lemma sm_inv_process_frame:
  "sm_inv sm \<Longrightarrow> process_frame mgr sm fr = (out, sm') \<Longrightarrow> sm_inv sm'"
  unfolding process_frame_def
  by (auto split: prod.splits sum.splits option.splits dest: sm_inv_vad_result)

lemma reachable_sm_inv: "reachable mgr sm \<Longrightarrow> sm_inv sm"
  by (induction rule: reachable.induct)
     (auto simp: sm_inv_init sm_inv_reset sm_inv_manager dest: sm_inv_process_frame)

lemma collecting_machine_eq:
  "collecting_machine =
     \<lparr>sm_instance_id = ''stream_processor'', state = COLLECTING,
      current_collector = Some \<lparr>segment_id = 1, frames = [start_frame], collecting = True\<rparr>,
      segment_counter = 1, interruption_manager = Some SYS_COLLECTING\<rparr>"
  by (simp add: collecting_machine_def machine_simps)

lemma reachable_idle: "reachable spec_manager idle_machine"
  unfolding idle_machine_def by (rule reachable.init)

lemma reachable_collecting: "reachable spec_manager collecting_machine"
  unfolding collecting_machine_def
  by (rule reachable.frame [OF reachable_idle, where fr = start_frame
        and out = "fst (process_frame spec_manager idle_machine start_frame)"]) simp

subsection \<open>The gatekeeper of a speech start\<close>

text \<open>
  Claim C1. On a frame with a start verdict the state machine calls the manager's
  \<^verbatim>\<open>on_speech_start\<close> with the frame's timestamp and then reads the manager's state. If that
  state is not the collecting one, the verdict is ignored: no result is returned, and the
  state machine is as before (state, collector and segment counter) but for the manager,
  which is in the state its own method left it in.
\<close>

theorem start_verdict_gated:
  assumes "vad_result fr = Some d" and "''start'' \<in> dom d"
    and "interruption_manager sm = Some m"
    and "on_speech_start mgr m (timestamp_ms fr) = (ev, m')"
    and "get_state mgr m' \<noteq> SYS_COLLECTING"
  shows "process_frame mgr sm fr = (Inr None, sm\<lparr>interruption_manager := Some m'\<rparr>)"
  using assms
  by (simp add: process_frame_def handle_vad_result_def handle_speech_start_def)

text \<open>
  A start verdict while the system is responding, with a manager that rejects it: nothing
  is returned and the state machine stays idle, without a collector.
\<close>

theorem start_verdict_gated_witness:
  "process_frame rejecting_manager
     (VADStateMachine_init ''stream_processor'' (Some SYS_RESPONDING)) start_frame
   = (Inr None, VADStateMachine_init ''stream_processor'' (Some SYS_RESPONDING))"
  using start_verdict_gated [of start_frame "[''start'' \<mapsto> 0]"
      "VADStateMachine_init ''stream_processor'' (Some SYS_RESPONDING)" SYS_RESPONDING
      rejecting_manager None SYS_RESPONDING]
  by (simp add: start_frame_def rejecting_manager_def VADStateMachine_init_def)

subsection \<open>The end of a segment\<close>

text \<open>
  Claim C6. On a frame with an end verdict the manager's \<^verbatim>\<open>on_speech_end\<close> is called with the
  frame's timestamp whatever the local state is. Then, if the local state is not collecting,
  nothing is returned and nothing else changes; if it is collecting, the open collector is
  finalized with this frame as its last one, the local state becomes idle, the collector is
  dropped, and exactly one result is returned, a segment-level one carrying that segment.
\<close>

theorem end_verdict:
  assumes "reachable mgr sm" and "vad_result fr = Some d"
    and "''start'' \<notin> dom d" and "''end'' \<in> dom d"
  shows "(state sm \<noteq> COLLECTING \<longrightarrow>
            process_frame mgr sm fr =
              (Inr None,
               sm\<lparr>interruption_manager :=
                    map_option (\<lambda>m. on_speech_end mgr m (timestamp_ms fr))
                      (interruption_manager sm)\<rparr>))
       \<and> (state sm = COLLECTING \<longrightarrow>
            (\<exists>c. current_collector sm = Some c
               \<and> process_frame mgr sm fr =
                   (Inr (Some \<lparr>result_type = ''segment'', frame = None,
                               segment = Some (make_segment (segment_id c) (frames c @ [fr])),
                               interruption = None, instance_id = sm_instance_id sm\<rparr>),
                    sm\<lparr>interruption_manager :=
                         map_option (\<lambda>m. on_speech_end mgr m (timestamp_ms fr))
                           (interruption_manager sm),
                       state := IDLE, current_collector := None\<rparr>)))"
proof -
  from assms(1) have inv: "sm_inv sm" by (rule reachable_sm_inv)
  show ?thesis
  proof (cases "current_collector sm")
    case None
    with inv have "state sm = IDLE" by (simp add: sm_inv_def)
    with None assms(2-4) show ?thesis
      by (cases "interruption_manager sm")
         (simp_all add: process_frame_def handle_vad_result_def handle_speech_end_def)
  next
    case (Some c)
    with inv have "state sm = COLLECTING" "collecting c" by (simp_all add: sm_inv_def)
    with Some assms(2-4) show ?thesis
      by (cases "interruption_manager sm")
         (simp_all add: process_frame_def handle_vad_result_def handle_speech_end_def
            end_collection_def)
  qed
qed

text \<open>
  An end verdict in the idle state and in the collecting state reached by one start frame:
  the first returns nothing, the second the segment of the two frames.
\<close>

theorem end_verdict_witness:
  "process_frame spec_manager idle_machine end_frame = (Inr None, idle_machine)
   \<and> process_frame spec_manager collecting_machine end_frame =
       (Inr (Some \<lparr>result_type = ''segment'', frame = None,
                   segment = Some (make_segment 1 [start_frame, end_frame]),
                   interruption = None, instance_id = ''stream_processor''\<rparr>),
        idle_machine\<lparr>segment_counter := 1\<rparr>)"
proof -
  have v: "vad_result end_frame = Some [''end'' \<mapsto> 0]"
    "''start'' \<notin> dom [''end'' \<mapsto> (0::int)]" "''end'' \<in> dom [''end'' \<mapsto> (0::int)]"
    by (simp_all add: end_frame_def)
  from end_verdict [OF reachable_idle v]
  have a: "process_frame spec_manager idle_machine end_frame = (Inr None, idle_machine)"
    by (simp add: idle_machine_def VADStateMachine_init_def spec_manager_def)
  from end_verdict [OF reachable_collecting v]
  have b: "process_frame spec_manager collecting_machine end_frame =
       (Inr (Some \<lparr>result_type = ''segment'', frame = None,
                   segment = Some (make_segment 1 [start_frame, end_frame]),
                   interruption = None, instance_id = ''stream_processor''\<rparr>),
        idle_machine\<lparr>segment_counter := 1\<rparr>)"
    by (simp add: collecting_machine_eq idle_machine_def VADStateMachine_init_def
        spec_manager_def end_frame_def)
  from a b show ?thesis by simp
qed

subsection \<open>The results of one frame\<close>

text \<open>
  Claim C7. Processing a frame in any state the state machine can reach returns (it does not
  raise) and yields at most one result: none, or one that is a frame-level result carrying
  the frame, a segment-level result carrying a segment, or an interruption-level result
  carrying an interruption event, tagged \<^verbatim>\<open>"frame"\<close>, \<^verbatim>\<open>"segment"\<close> and \<^verbatim>\<open>"interruption"\<close>.
\<close>

theorem frame_yields_at_most_one_result:
  assumes "reachable mgr sm"
  shows "\<exists>res sm'. process_frame mgr sm fr = (Inr res, sm')
     \<and> (case res of
          None \<Rightarrow> True
        | Some r \<Rightarrow>
            (result_type r = ''frame'' \<and> frame r = Some fr \<and> segment r = None
               \<and> interruption r = None)
          \<or> (result_type r = ''segment'' \<and> frame r = None \<and> segment r \<noteq> None
               \<and> interruption r = None)
          \<or> (result_type r = ''interruption'' \<and> frame r = None \<and> segment r = None
               \<and> interruption r \<noteq> None))"
proof -
  from assms have inv: "sm_inv sm" by (rule reachable_sm_inv)
  have ns: "\<exists>sm'. handle_no_speech sm fr = (Inr None, sm')
      \<or> handle_no_speech sm fr =
          (Inr (Some \<lparr>result_type = ''frame'', frame = Some fr, segment = None,
                      interruption = None, instance_id = sm_instance_id sm\<rparr>), sm')"
    using inv
    by (auto simp: handle_no_speech_def sm_inv_def add_frame_def split: option.splits)
  have bc: "\<exists>sm' ev. begin_collecting t e fr = (Inr None, sm')
      \<or> begin_collecting t e fr =
          (Inr (Some \<lparr>result_type = ''interruption'', frame = None, segment = None,
                      interruption = Some ev, instance_id = sm_instance_id t\<rparr>), sm')" for t e
    by (auto simp: begin_collecting_def Let_def split: option.splits)
  have st: "\<exists>sm' ev i. handle_speech_start mgr sm fr = (Inr None, sm')
      \<or> handle_speech_start mgr sm fr =
          (Inr (Some \<lparr>result_type = ''interruption'', frame = None, segment = None,
                      interruption = Some ev, instance_id = i\<rparr>), sm')"
  proof (cases "interruption_manager sm")
    case None
    with bc [of sm None] show ?thesis by (auto simp: handle_speech_start_def)
  next
    case (Some m)
    obtain ev m' where o: "on_speech_start mgr m (timestamp_ms fr) = (ev, m')"
      by (cases "on_speech_start mgr m (timestamp_ms fr)")
    with Some bc [of "sm\<lparr>interruption_manager := Some m'\<rparr>" ev] show ?thesis
      by (auto simp: handle_speech_start_def Let_def)
  qed
  have en: "\<exists>sm' seg. handle_speech_end mgr sm fr = (Inr None, sm')
      \<or> handle_speech_end mgr sm fr =
          (Inr (Some \<lparr>result_type = ''segment'', frame = None, segment = Some seg,
                      interruption = None, instance_id = sm_instance_id sm\<rparr>), sm')"
    using inv
    by (cases "interruption_manager sm")
       (auto simp: handle_speech_end_def Let_def sm_inv_def end_collection_def
          split: option.splits)
  show ?thesis
  proof (cases "vad_result fr")
    case None
    with ns show ?thesis by (auto simp: process_frame_def handle_vad_result_def)
  next
    case (Some d)
    show ?thesis
    proof (cases "''start'' \<in> dom d")
      case True
      with Some have "handle_vad_result mgr sm fr = handle_speech_start mgr sm fr"
        by (simp add: handle_vad_result_def)
      with st show ?thesis by (auto simp: process_frame_def)
    next
      case False
      show ?thesis
      proof (cases "''end'' \<in> dom d")
        case True
        with Some False have "handle_vad_result mgr sm fr = handle_speech_end mgr sm fr"
          by (simp add: handle_vad_result_def)
        with en show ?thesis by (auto simp: process_frame_def)
      next
        case nend: False
        with Some False have "handle_vad_result mgr sm fr = handle_no_speech sm fr"
          by (simp add: handle_vad_result_def)
        with ns show ?thesis by (auto simp: process_frame_def)
      qed
    qed
  qed
qed

text \<open>A frame with an unknown verdict in the idle state: one frame-level result.\<close>

theorem frame_yields_at_most_one_result_witness:
  "reachable spec_manager idle_machine
   \<and> (\<exists>res sm'. process_frame spec_manager idle_machine unknown_frame = (Inr res, sm')
     \<and> (case res of
          None \<Rightarrow> True
        | Some r \<Rightarrow>
            (result_type r = ''frame'' \<and> frame r = Some unknown_frame \<and> segment r = None
               \<and> interruption r = None)
          \<or> (result_type r = ''segment'' \<and> frame r = None \<and> segment r \<noteq> None
               \<and> interruption r = None)
          \<or> (result_type r = ''interruption'' \<and> frame r = None \<and> segment r = None
               \<and> interruption r \<noteq> None)))"
  using frame_yields_at_most_one_result [OF reachable_idle, of unknown_frame] reachable_idle
  by simp

subsection \<open>Verdicts of an unknown shape\<close>

text \<open>
  Claim C10. A frame whose verdict is a dict with neither the key \<^verbatim>\<open>'start'\<close> nor the key
  \<^verbatim>\<open>'end'\<close> is handled by \<^verbatim>\<open>_handle_no_speech\<close>, as a frame without activity is: in the
  collecting state the frame is appended to the open collector and nothing is returned, in
  the idle state a frame-level result carrying the frame is returned and nothing changes.
\<close>

theorem unrecognized_verdict_is_no_speech:
  assumes "reachable mgr sm" and "vad_result fr = Some d"
    and "''start'' \<notin> dom d" and "''end'' \<notin> dom d"
  shows "handle_vad_result mgr sm fr = handle_no_speech sm fr
     \<and> (state sm = COLLECTING \<longrightarrow>
          (\<exists>c. current_collector sm = Some c
             \<and> process_frame mgr sm fr =
                 (Inr None, sm\<lparr>current_collector := Some (c\<lparr>frames := frames c @ [fr]\<rparr>)\<rparr>)))
     \<and> (state sm = IDLE \<longrightarrow>
          process_frame mgr sm fr =
            (Inr (Some \<lparr>result_type = ''frame'', frame = Some fr, segment = None,
                        interruption = None, instance_id = sm_instance_id sm\<rparr>), sm))"
proof -
  from assms(1) have inv: "sm_inv sm" by (rule reachable_sm_inv)
  from assms(2-4) have eq: "handle_vad_result mgr sm fr = handle_no_speech sm fr"
    by (simp add: handle_vad_result_def)
  show ?thesis
  proof (cases "current_collector sm")
    case None
    with inv have "state sm = IDLE" by (simp add: sm_inv_def)
    with None eq show ?thesis by (simp add: process_frame_def handle_no_speech_def)
  next
    case (Some c)
    with inv have "state sm = COLLECTING" "collecting c" by (simp_all add: sm_inv_def)
    with Some eq show ?thesis
      by (simp add: process_frame_def handle_no_speech_def add_frame_def)
  qed
qed

text \<open>The frame with the verdict \<^verbatim>\<open>{'speech': 0}\<close> in the idle and in the collecting state.\<close>

theorem unrecognized_verdict_is_no_speech_witness:
  "process_frame spec_manager idle_machine unknown_frame =
     (Inr (Some \<lparr>result_type = ''frame'', frame = Some unknown_frame, segment = None,
                 interruption = None, instance_id = ''stream_processor''\<rparr>), idle_machine)
   \<and> process_frame spec_manager collecting_machine unknown_frame =
     (Inr None,
      collecting_machine\<lparr>current_collector :=
        Some \<lparr>segment_id = 1, frames = [start_frame, unknown_frame], collecting = True\<rparr>\<rparr>)"
proof -
  have v: "vad_result unknown_frame = Some [''speech'' \<mapsto> 0]"
    "''start'' \<notin> dom [''speech'' \<mapsto> (0::int)]" "''end'' \<notin> dom [''speech'' \<mapsto> (0::int)]"
    by (simp_all add: unknown_frame_def)
  from unrecognized_verdict_is_no_speech [OF reachable_idle v]
  have a: "process_frame spec_manager idle_machine unknown_frame =
     (Inr (Some \<lparr>result_type = ''frame'', frame = Some unknown_frame, segment = None,
                 interruption = None, instance_id = ''stream_processor''\<rparr>), idle_machine)"
    by (simp add: idle_machine_def VADStateMachine_init_def)
  from unrecognized_verdict_is_no_speech [OF reachable_collecting v]
  have b: "process_frame spec_manager collecting_machine unknown_frame =
     (Inr None,
      collecting_machine\<lparr>current_collector :=
        Some \<lparr>segment_id = 1, frames = [start_frame, unknown_frame], collecting = True\<rparr>\<rparr>)"
    by (simp add: collecting_machine_eq)
  from a b show ?thesis by simp
qed

section \<open>The processor\<close>

subsection \<open>The loop over the complete frames\<close>

lemma process_frame_data_buffer:
  "process_frame_data mgr vad s fd = (out, s') \<Longrightarrow> frame_buffer s' = frame_buffer s"
  by (auto simp: process_frame_data_def Let_def
      split: option.splits prod.splits sum.splits if_splits)

lemma process_frames_stop:
  "\<not> has_complete_frame (frame_buffer s) \<Longrightarrow> process_frames mgr vad s results = (Inr results, s)"
  by (simp add: process_frames.simps)

lemma next_frame_nonempty: "has_complete_frame b \<Longrightarrow> next_frame b \<noteq> []"
  by (auto simp: next_frame_def has_complete_frame_def frame_size_bytes_def AUDIO_FRAME_SIZE_def)

lemma process_frames_step:
  assumes "has_complete_frame (frame_buffer s)"
  shows "process_frames mgr vad s results =
     (case process_frame_data mgr vad (s\<lparr>frame_buffer := rest (frame_buffer s)\<rparr>)
             (next_frame (frame_buffer s)) of
        (Inl e, s') \<Rightarrow> (Inl e, s')
      | (Inr None, s') \<Rightarrow> process_frames mgr vad s' results
      | (Inr (Some r), s') \<Rightarrow> process_frames mgr vad s' (results @ [r]))"
  using assms next_frame_nonempty [OF assms]
  by (subst process_frames.simps) (simp add: read_frame_def next_frame_def rest_def)

lemma rest_shorter:
  "has_complete_frame b \<Longrightarrow> length (buffer (rest b)) < length (buffer b)"
  by (simp add: rest_def has_complete_frame_def frame_size_bytes_def AUDIO_FRAME_SIZE_def)

lemma process_frames_invariant:
  assumes run: "process_frames mgr vad s results = (out, s')"
    and start: "P s"
    and rd: "\<And>t. P t \<Longrightarrow> has_complete_frame (frame_buffer t)
               \<Longrightarrow> P (t\<lparr>frame_buffer := rest (frame_buffer t)\<rparr>)"
    and body: "\<And>t fd o' t'. P t \<Longrightarrow> process_frame_data mgr vad t fd = (o', t') \<Longrightarrow> P t'"
  shows "P s'"
  using run start
proof (induction "length (buffer (frame_buffer s))" arbitrary: s results rule: less_induct)
  case less
  show ?case
  proof (cases "has_complete_frame (frame_buffer s)")
    case False
    with less.prems show ?thesis by (simp add: process_frames_stop)
  next
    case True
    let ?s1 = "s\<lparr>frame_buffer := rest (frame_buffer s)\<rparr>"
    obtain o' t where pd:
      "process_frame_data mgr vad ?s1 (next_frame (frame_buffer s)) = (o', t)"
      by (cases "process_frame_data mgr vad ?s1 (next_frame (frame_buffer s))")
    have Pt: "P t" using body [OF rd [OF less.prems(2) True] pd] .
    have "frame_buffer t = rest (frame_buffer s)"
      using process_frame_data_buffer [OF pd] by simp
    with rest_shorter [OF True]
    have shorter: "length (buffer (frame_buffer t)) < length (buffer (frame_buffer s))"
      by simp
    show ?thesis
    proof (cases o')
      case (Inl e)
      with less.prems(1) pd Pt show ?thesis
        by (simp add: process_frames_step [OF True])
    next
      case (Inr res)
      with less.prems(1) pd
      have "\<exists>results'. process_frames mgr vad t results' = (out, s')"
        by (cases res) (auto simp: process_frames_step [OF True])
      then obtain results' where "process_frames mgr vad t results' = (out, s')" ..
      from less.hyps [OF shorter this Pt] show ?thesis .
    qed
  qed
qed

lemma process_frame_data_log:
  assumes "process_frame_data mgr vad s fd = (out, s')"
  shows "(frame_counter s' = frame_counter s \<and> frame_log s' = frame_log s)
       \<or> (\<exists>v. frame_counter s' = frame_counter s + 1
              \<and> frame_log s' = frame_log s @
                    [\<lparr>frame_id = frame_counter s + 1, audio_data = fd,
                      timestamp_ms = (frame_counter s + 1) * 32, vad_result = v\<rparr>])"
  using assms
  by (auto simp: process_frame_data_def Let_def
      split: option.splits prod.splits sum.splits if_splits)

lemma process_frame_data_error_count:
  "process_frame_data mgr vad s fd = (out, s') \<Longrightarrow> error_count s' = error_count s"
  by (auto simp: process_frame_data_def Let_def
      split: option.splits prod.splits sum.splits if_splits)

lemma process_frames_error_count:
  assumes "process_frames mgr vad s results = (out, s')"
  shows "error_count s' = error_count s"
  by (rule process_frames_invariant [OF assms, where P = "\<lambda>t. error_count t = error_count s"])
     (simp_all add: process_frame_data_error_count)

subsection \<open>The outcomes of a call and the states of a session\<close>

lemma process_chunk_outcomes:
  assumes "process_chunk mgr vad s audio elapsed = (out, s')"
  obtains (rejected) e where "out = Inl e" "s' = s"
  | (overflow) "out = Inl (CascadeError PROCESSING_FAILED)"
      "s' = s\<lparr>error_count := error_count s + 1\<rparr>"
  | (failed) b e t where "buffer_write (frame_buffer s) audio = Inr b"
      "process_frames mgr vad (s\<lparr>frame_buffer := b\<rparr>) [] = (Inl e, t)"
      "out = Inl (CascadeError PROCESSING_FAILED)"
      "s' = t\<lparr>error_count := error_count t + 1\<rparr>"
  | (returned) b results t where "buffer_write (frame_buffer s) audio = Inr b"
      "process_frames mgr vad (s\<lparr>frame_buffer := b\<rparr>) [] = (Inr results, t)"
      "out = Inr results"
      "s' = record_processing_time
              (t\<lparr>total_chunks_processed := total_chunks_processed t + 1,
                 total_processing_time_ms := total_processing_time_ms t + elapsed\<rparr>) elapsed"
  using assms
  by (auto simp: process_chunk_def process_chunk_internal_def
      split: if_splits sum.splits prod.splits)

lemma session_log_invariant:
  fixes P :: "('m, 'o) StreamProcessor \<Rightarrow> bool"
  assumes sess: "session mgr vad s"
    and dep: "\<And>t t'. frame_counter t' = frame_counter t \<Longrightarrow> frame_log t' = frame_log t
               \<Longrightarrow> P t \<Longrightarrow> P t'"
    and init: "\<And>m. P (StreamProcessor_init m)"
    and body: "\<And>t fd o' t'. P t \<Longrightarrow> process_frame_data mgr vad t fd = (o', t') \<Longrightarrow> P t'"
  shows "P s"
  using sess
proof (induction rule: session.induct)
  case (created m)
  show ?case by (rule init)
next
  case (initialized s loaded out s')
  from initialized.hyps(2) have "frame_counter s' = frame_counter s \<and> frame_log s' = frame_log s"
    by (auto simp: initialize_def split: if_splits option.splits)
  with initialized.IH show ?case by (blast intro: dep)
next
  case (chunk s audio elapsed res s')
  have loop: "P t" if "process_frames mgr vad (s\<lparr>frame_buffer := b\<rparr>) [] = (o', t)" for b o' t
  proof (rule process_frames_invariant [OF that, where P = P])
    show "P (s\<lparr>frame_buffer := b\<rparr>)" by (rule dep [OF _ _ chunk.IH]) simp_all
  next
    fix t assume "P t"
    then show "P (t\<lparr>frame_buffer := rest (frame_buffer t)\<rparr>)" by (rule dep [rotated 2]) simp_all
  qed (rule body)
  from chunk.hyps(2) show ?case
  proof (cases rule: process_chunk_outcomes)
    case rejected
    with chunk.IH show ?thesis by simp
  next
    case overflow
    show ?thesis unfolding overflow(2) by (rule dep [OF _ _ chunk.IH]) simp_all
  next
    case (failed b e t)
    show ?thesis unfolding failed(4) by (rule dep [OF _ _ loop [OF failed(2)]]) simp_all
  next
    case (returned b results t)
    show ?thesis unfolding returned(4)
      by (rule dep [OF _ _ loop [OF returned(2)]]) (simp_all add: record_processing_time_def Let_def)
  qed
next
  case (closed s)
  show ?case by (rule dep [OF _ _ closed.IH]) (simp_all add: close_def)
next
  case (stats_reset s)
  show ?case by (rule dep [OF _ _ stats_reset.IH]) (simp_all add: reset_stats_def)
next
  case (system_state s m')
  show ?case by (rule dep [OF _ _ system_state.IH]) simp_all
qed

lemma session_after_chunk:
  "session mgr vad s \<Longrightarrow> session mgr vad (snd (process_chunk mgr vad s audio elapsed))"
  by (rule session.chunk [where res = "fst (process_chunk mgr vad s audio elapsed)"]) simp_all

lemma session_after_initialize:
  "session mgr vad s \<Longrightarrow> session mgr vad (snd (initialize s loaded))"
  by (rule session.initialized [where out = "fst (initialize s loaded)"]) simp_all

lemma session_ready: "session mgr vad (ready script)"
  unfolding ready_def by (intro session_after_initialize session.created)

lemma session_capacity:
  assumes "session mgr vad s"
  shows "max_buffer_samples (frame_buffer s) = 128000"
  using assms
proof (induction rule: session.induct)
  case (created m)
  show ?case by (simp add: StreamProcessor_init_def FrameAlignedBuffer_init_def)
next
  case (initialized s loaded out s')
  then show ?case by (auto simp: initialize_def split: if_splits option.splits)
next
  case (chunk s audio elapsed res s')
  let ?P = "\<lambda>t :: ('a, 'b) StreamProcessor. max_buffer_samples (frame_buffer t) = 128000"
  have loop: "?P t"
    if "buffer_write (frame_buffer s) audio = Inr b"
      and "process_frames mgr vad (s\<lparr>frame_buffer := b\<rparr>) [] = (o', t)" for b o' t
  proof (rule process_frames_invariant [OF that(2), where P = ?P])
    from that(1) chunk.IH show "?P (s\<lparr>frame_buffer := b\<rparr>)"
      by (auto simp: buffer_write_def split: if_splits)
  next
    fix t :: "('a, 'b) StreamProcessor" assume "?P t"
    then show "?P (t\<lparr>frame_buffer := rest (frame_buffer t)\<rparr>)" by (simp add: rest_def)
  next
    fix t t' :: "('a, 'b) StreamProcessor" and fd o'
    assume "?P t" "process_frame_data mgr vad t fd = (o', t')"
    then show "?P t'" using process_frame_data_buffer by metis
  qed
  from chunk.hyps(2) show ?case
  proof (cases rule: process_chunk_outcomes)
    case rejected
    with chunk.IH show ?thesis by simp
  next
    case overflow
    with chunk.IH show ?thesis by simp
  next
    case (failed b e t)
    with loop [OF failed(1,2)] show ?thesis by simp
  next
    case (returned b results t)
    with loop [OF returned(1,2)] show ?thesis
      by (simp add: record_processing_time_def Let_def)
  qed
next
  case (closed s)
  then show ?case by (simp add: close_def clear_def)
next
  case (stats_reset s)
  then show ?case by (simp add: reset_stats_def)
next
  case (system_state s m')
  then show ?case by simp
qed

subsection \<open>Evaluation of concrete runs\<close>

lemmas run_simps =
  process_chunk_def process_chunk_internal_def validate_audio_chunk_def MAX_CHUNK_SIZE_def
  buffer_write_def process_frames_step process_frames_stop has_complete_frame_def
  next_frame_def rest_def frame_size_bytes_def AUDIO_FRAME_SIZE_def process_frame_data_def
  process_frame_def handle_vad_result_def handle_no_speech_def is_speech_segment_def
  record_processing_time_def max_processing_times_def Let_def
  initialize_def StreamProcessor_init_def FrameAlignedBuffer_init_def VADStateMachine_init_def
  silence_def ready_def

lemma first_chunk_eq:
  "process_chunk spec_manager scripted (ready []) (silence 1024) 0 =
     (Inr [\<lparr>result_type = ''frame'',
            frame = Some \<lparr>frame_id = 1, audio_data = silence 1024, timestamp_ms = 32,
                          vad_result = None\<rparr>,
            segment = None, interruption = None, instance_id = ''stream_processor''\<rparr>],
      first_chunk)"
  by (simp add: first_chunk_def run_simps)

lemma first_chunk_log:
  "frame_counter first_chunk = 1 \<and> frame_log first_chunk =
     [\<lparr>frame_id = 1, audio_data = silence 1024, timestamp_ms = 32, vad_result = None\<rparr>]"
  by (simp add: first_chunk_def run_simps)

lemma session_first_chunk: "session spec_manager scripted first_chunk"
  unfolding first_chunk_def by (intro session_after_chunk session_ready)

section \<open>Frame ids and timestamps\<close>

lemma frame_ids_step:
  assumes "frame_ids_consecutive s" and "process_frame_data mgr vad s fd = (out, s')"
  shows "frame_ids_consecutive s'"
  using assms(1) process_frame_data_log [OF assms(2)]
  by (auto simp: frame_ids_consecutive_def upto_rec2)

text \<open>
  Claim C2, as the code has it. In every state of a session the ids of the frames constructed
  so far are \<open>1, 2, 3, \<dots>\<close> without a gap, up to the frame counter, and they go on from
  there: neither \<^verbatim>\<open>close\<close> nor \<^verbatim>\<open>reset_stats\<close> changes the frame counter, so that no
  operation of the session makes the ids start at \<open>1\<close> again.
\<close>

theorem frame_ids_form_sequence:
  assumes "session mgr vad s"
  shows "map frame_id (frame_log s) = [1..frame_counter s]
       \<and> frame_counter (close s) = frame_counter s
       \<and> frame_counter (reset_stats s) = frame_counter s"
proof -
  have "frame_ids_consecutive s"
    by (rule session_log_invariant [OF assms, where P = frame_ids_consecutive])
       (simp_all add: frame_ids_step,
        simp_all add: frame_ids_consecutive_def StreamProcessor_init_def)
  then show ?thesis
    by (simp add: frame_ids_consecutive_def close_def reset_stats_def)
qed

text \<open>After one chunk of one frame: the ids are \<open>[1]\<close>, and the counter stays at \<open>1\<close>.\<close>

theorem frame_ids_form_sequence_witness:
  "session spec_manager scripted first_chunk
   \<and> map frame_id (frame_log first_chunk) = [1]
   \<and> frame_counter (close first_chunk) = 1
   \<and> frame_counter (reset_stats first_chunk) = 1"
  using frame_ids_form_sequence [OF session_first_chunk] session_first_chunk
  by (simp add: first_chunk_log)

text \<open>
  Claim C2, as it is stated, fails where it lets a reset restart the ids at \<open>1\<close>: a session
  that has processed one frame, is closed and initialized again gives its next frame the
  id \<open>2\<close>.
\<close>

theorem reset_does_not_restart_frame_ids:
  "frame_ids_of (fst (process_chunk spec_manager scripted (ready []) (silence 1024) 0)) = [1]
   \<and> frame_ids_of (fst (process_chunk spec_manager scripted reopened (silence 1024) 0)) = [2]"
  by (simp add: frame_ids_of_def reopened_def first_chunk_def close_def clear_def reset_def
      run_simps)

lemma timestamps_step:
  assumes "timestamps_derived s" and "process_frame_data mgr vad s fd = (out, s')"
  shows "timestamps_derived s'"
  using assms(1) process_frame_data_log [OF assms(2)]
  by (auto simp: timestamps_derived_def)

text \<open>
  Claim C9. In every state of a session, every frame the processor has constructed has the
  timestamp, in milliseconds, of its frame id times \<open>32\<close>.
\<close>

theorem frame_timestamp_is_id_times_32:
  assumes "session mgr vad s" and "f \<in> set (frame_log s)"
  shows "timestamp_ms f = frame_id f * 32"
proof -
  have "timestamps_derived s"
    by (rule session_log_invariant [OF assms(1), where P = timestamps_derived])
       (simp_all add: timestamps_step,
        simp_all add: timestamps_derived_def StreamProcessor_init_def)
  with assms(2) show ?thesis
    by (simp add: timestamps_derived_def list_all_iff)
qed

text \<open>The frame of the first chunk: id \<open>1\<close>, timestamp \<open>32\<close>.\<close>

theorem frame_timestamp_is_id_times_32_witness:
  "session spec_manager scripted first_chunk
   \<and> hd (frame_log first_chunk) \<in> set (frame_log first_chunk)
   \<and> timestamp_ms (hd (frame_log first_chunk)) = frame_id (hd (frame_log first_chunk)) * 32
   \<and> frame_id (hd (frame_log first_chunk)) = 1"
proof -
  have m: "hd (frame_log first_chunk) \<in> set (frame_log first_chunk)"
    by (simp add: first_chunk_log)
  from frame_timestamp_is_id_times_32 [OF session_first_chunk m] m session_first_chunk
  show ?thesis by (simp add: first_chunk_log)
qed

section \<open>A failing oracle\<close>

lemma process_frame_data_oracle:
  assumes "process_frame_data mgr vad s fd = (out, s')" and "vad_iterator s = Some it"
  shows "(case vad it fd of
            (Inl e, it') \<Rightarrow> out = Inl e \<and> vad_iterator s' = Some it'
          | (Inr verdict, it') \<Rightarrow> vad_iterator s' = Some it')"
  using assms
  by (auto simp: process_frame_data_def Let_def
      split: option.splits prod.splits sum.splits if_splits)

lemma process_frames_oracle_fails:
  assumes "vad_iterator s = Some it"
    and "oracle_fails vad it (complete_frames (buffer (frame_buffer s)))"
  shows "\<exists>e s'. process_frames mgr vad s results = (Inl e, s')"
  using assms
proof (induction "length (buffer (frame_buffer s))" arbitrary: s it results rule: less_induct)
  case less
  show ?case
  proof (cases "has_complete_frame (frame_buffer s)")
    case False
    with less.prems(2) show ?thesis
      by (simp add: complete_frames.simps [of "buffer (frame_buffer s)"] has_complete_frame_def)
  next
    case True
    let ?s1 = "s\<lparr>frame_buffer := rest (frame_buffer s)\<rparr>"
    let ?fd = "next_frame (frame_buffer s)"
    obtain o' t where pd: "process_frame_data mgr vad ?s1 ?fd = (o', t)"
      by (cases "process_frame_data mgr vad ?s1 ?fd")
    have buf: "frame_buffer t = rest (frame_buffer s)"
      using process_frame_data_buffer [OF pd] by simp
    from True less.prems(2)
    have fails: "oracle_fails vad it (?fd # complete_frames (buffer (rest (frame_buffer s))))"
      by (simp add: complete_frames.simps [of "buffer (frame_buffer s)"] has_complete_frame_def
          next_frame_def rest_def)
    have orc: "(case vad it ?fd of
                  (Inl e, it') \<Rightarrow> o' = Inl e \<and> vad_iterator t = Some it'
                | (Inr verdict, it') \<Rightarrow> vad_iterator t = Some it')"
      using process_frame_data_oracle [OF pd, of it] less.prems(1) by simp
    show ?thesis
    proof (cases o')
      case (Inl e)
      with pd show ?thesis by (simp add: process_frames_step [OF True])
    next
      case (Inr res)
      obtain vo it' where v: "vad it ?fd = (vo, it')" by (cases "vad it ?fd")
      with orc Inr obtain verdict where vo: "vo = Inr verdict" and it': "vad_iterator t = Some it'"
        by (cases vo) auto
      from fails v vo have "oracle_fails vad it' (complete_frames (buffer (frame_buffer t)))"
        by (simp add: buf)
      from less.hyps [OF _ it' this] rest_shorter [OF True] buf
      have "\<And>results'. \<exists>e s'. process_frames mgr vad t results' = (Inl e, s')" by simp
      with pd Inr show ?thesis
        by (cases res) (simp_all add: process_frames_step [OF True])
    qed
  qed
qed

text \<open>
  Claim C3. On an initialized session and a chunk that passes validation, if the oracle raises
  on one of the complete frames the buffer holds once the chunk is written, then
  \<^verbatim>\<open>process_chunk\<close> raises a \<^verbatim>\<open>CascadeError\<close> with code \<^verbatim>\<open>PROCESSING_FAILED\<close> and the error
  counter is one more than before. The call returns no list of results, so the results of
  the frames before the failing one are not handed to the caller.
\<close>

theorem oracle_failure_raises_processing_error:
  assumes "vad_iterator s = Some it"
    and "validate_audio_chunk audio = Inr ()"
    and "oracle_fails vad it (complete_frames (buffer (frame_buffer s) @ audio))"
  shows "\<exists>s'. process_chunk mgr vad s audio elapsed = (Inl (CascadeError PROCESSING_FAILED), s')
            \<and> error_count s' = error_count s + 1"
proof (cases "buffer_write (frame_buffer s) audio")
  case (Inl e)
  with assms(1,2) show ?thesis
    by (simp add: process_chunk_def process_chunk_internal_def)
next
  case (Inr b)
  then have b: "buffer b = buffer (frame_buffer s) @ audio"
    by (auto simp: buffer_write_def split: if_splits)
  let ?s1 = "s\<lparr>frame_buffer := b\<rparr>"
  from assms(1,3) b obtain e t where run: "process_frames mgr vad ?s1 [] = (Inl e, t)"
    using process_frames_oracle_fails [of ?s1 it vad mgr "[]"] by auto
  from process_frames_error_count [OF run] have "error_count t = error_count s" by simp
  with assms(1,2) Inr run show ?thesis
    by (simp add: process_chunk_def process_chunk_internal_def)
qed

text \<open>
  A chunk of two frames, the oracle raising on the second: the call raises, the error counter
  is \<open>1\<close>, and the frame-level result of the first frame was counted but is not returned.
\<close>

theorem oracle_failure_raises_processing_error_witness:
  "vad_iterator two_frames_second_fails = Some [Inr None, Inl VADInferenceError]
   \<and> validate_audio_chunk (silence 2048) = Inr ()
   \<and> oracle_fails scripted [Inr None, Inl VADInferenceError]
        (complete_frames (buffer (frame_buffer two_frames_second_fails) @ silence 2048))
   \<and> fst (process_chunk spec_manager scripted two_frames_second_fails (silence 2048) 0)
       = Inl (CascadeError PROCESSING_FAILED)
   \<and> error_count (snd (process_chunk spec_manager scripted two_frames_second_fails
        (silence 2048) 0)) = 1
   \<and> single_frames_count (snd (process_chunk spec_manager scripted two_frames_second_fails
        (silence 2048) 0)) = 1"
proof -
  have h1: "vad_iterator two_frames_second_fails = Some [Inr None, Inl VADInferenceError]"
    by (simp add: two_frames_second_fails_def run_simps)
  have h2: "validate_audio_chunk (silence 2048) = Inr ()"
    by (simp add: validate_audio_chunk_def silence_def MAX_CHUNK_SIZE_def)
  have h3: "oracle_fails scripted [Inr None, Inl VADInferenceError]
        (complete_frames (buffer (frame_buffer two_frames_second_fails) @ silence 2048))"
    by (simp add: two_frames_second_fails_def run_simps complete_frames.simps)
  have e0: "error_count two_frames_second_fails = 0"
    by (simp add: two_frames_second_fails_def run_simps)
  have c: "single_frames_count (snd (process_chunk spec_manager scripted
        two_frames_second_fails (silence 2048) 0)) = 1"
    by (simp add: two_frames_second_fails_def run_simps)
  from oracle_failure_raises_processing_error [OF h1 h2 h3, of spec_manager 0] e0 h1 h2 h3 c
  show ?thesis by auto
qed

section \<open>Validation of a chunk\<close>

lemma process_frames_drains:
  "process_frames mgr vad s results = (Inr rs, s') \<Longrightarrow> \<not> has_complete_frame (frame_buffer s')"
proof (induction "length (buffer (frame_buffer s))" arbitrary: s results rule: less_induct)
  case less
  show ?case
  proof (cases "has_complete_frame (frame_buffer s)")
    case False
    with less.prems show ?thesis by (simp add: process_frames_stop)
  next
    case True
    let ?s1 = "s\<lparr>frame_buffer := rest (frame_buffer s)\<rparr>"
    obtain o' t where pd:
      "process_frame_data mgr vad ?s1 (next_frame (frame_buffer s)) = (o', t)"
      by (cases "process_frame_data mgr vad ?s1 (next_frame (frame_buffer s))")
    have "frame_buffer t = rest (frame_buffer s)"
      using process_frame_data_buffer [OF pd] by simp
    with rest_shorter [OF True]
    have shorter: "length (buffer (frame_buffer t)) < length (buffer (frame_buffer s))"
      by simp
    from less.prems pd
    have "\<exists>results'. process_frames mgr vad t results' = (Inr rs, s')"
      by (auto simp: process_frames_step [OF True] split: sum.splits option.splits)
    then obtain results' where "process_frames mgr vad t results' = (Inr rs, s')" ..
    from less.hyps [OF shorter this] show ?thesis .
  qed
qed

lemma buffer_drained_when_chunk_returns:
  assumes "process_chunk mgr vad s audio elapsed = (Inr rs, s')"
  shows "\<not> has_complete_frame (frame_buffer s')"
  using assms
proof (cases rule: process_chunk_outcomes)
  case (returned b results t)
  from process_frames_drains [OF returned(2)] returned(4) show ?thesis
    by (simp add: record_processing_time_def Let_def)
qed simp_all

lemma buffer_drained_initially:
  "\<not> has_complete_frame (frame_buffer (StreamProcessor_init m))"
  "\<not> has_complete_frame (frame_buffer (close s))"
  by (simp_all add: StreamProcessor_init_def FrameAlignedBuffer_init_def close_def clear_def
      has_complete_frame_def frame_size_bytes_def AUDIO_FRAME_SIZE_def)

text \<open>
  Claim C4, as the code has it. For an initialized session whose buffer holds no complete
  frame, \<^verbatim>\<open>process_chunk\<close> on the empty chunk returns the empty list of results; for any
  initialized session, a chunk of odd length and a chunk of more than 512 KiB are each
  rejected with an input error. (The buffer holds no complete frame after the constructor,
  after \<^verbatim>\<open>close\<close> and after every call of \<^verbatim>\<open>process_chunk\<close> that returned.)
\<close>

theorem chunk_boundaries:
  assumes "session mgr vad s" and "vad_iterator s \<noteq> None"
  shows "(\<not> has_complete_frame (frame_buffer s)
            \<longrightarrow> fst (process_chunk mgr vad s [] elapsed) = Inr [])
       \<and> (odd (length odd_chunk)
            \<longrightarrow> (\<exists>e. InputError e \<and> fst (process_chunk mgr vad s odd_chunk elapsed) = Inl e))
       \<and> (512 * 1024 < length big_chunk
            \<longrightarrow> (\<exists>e. InputError e \<and> fst (process_chunk mgr vad s big_chunk elapsed) = Inl e))"
proof (intro conjI impI)
  assume "\<not> has_complete_frame (frame_buffer s)"
  moreover from this session_capacity [OF assms(1)]
  have "buffer_write (frame_buffer s) [] = Inr (frame_buffer s)"
    by (simp add: buffer_write_def has_complete_frame_def frame_size_bytes_def
        AUDIO_FRAME_SIZE_def)
  ultimately show "fst (process_chunk mgr vad s [] elapsed) = Inr []"
    using assms(2)
    by (simp add: process_chunk_def validate_audio_chunk_def process_chunk_internal_def
        process_frames_stop)
next
  assume "odd (length odd_chunk)"
  then have "length odd_chunk \<noteq> 0" "length odd_chunk mod 2 \<noteq> 0"
    by (auto simp: odd_iff_mod_2_eq_one)
  with assms(2)
  show "\<exists>e. InputError e \<and> fst (process_chunk mgr vad s odd_chunk elapsed) = Inl e"
    by (simp add: process_chunk_def validate_audio_chunk_def InputError_def Let_def)
next
  assume "512 * 1024 < length big_chunk"
  then have "big_chunk \<noteq> []" by auto
  with \<open>512 * 1024 < length big_chunk\<close> assms(2)
  show "\<exists>e. InputError e \<and> fst (process_chunk mgr vad s big_chunk elapsed) = Inl e"
    by (simp add: process_chunk_def validate_audio_chunk_def InputError_def Let_def
        MAX_CHUNK_SIZE_def)
qed

text \<open>
  An initialized session with an empty buffer: the empty chunk, a chunk of three bytes and a
  chunk of 512 KiB and one byte.
\<close>

theorem chunk_boundaries_witness:
  "session spec_manager scripted (ready []) \<and> vad_iterator (ready []) \<noteq> None
   \<and> \<not> has_complete_frame (frame_buffer (ready []))
   \<and> fst (process_chunk spec_manager scripted (ready []) [] 0) = Inr []
   \<and> (\<exists>e. InputError e
          \<and> fst (process_chunk spec_manager scripted (ready []) (silence 3) 0) = Inl e)
   \<and> (\<exists>e. InputError e
          \<and> fst (process_chunk spec_manager scripted (ready []) (silence 524289) 0) = Inl e)"
proof -
  have h1: "session spec_manager scripted (ready [])" by (rule session_ready)
  have h2: "vad_iterator (ready [] :: (SystemState, (exn + vad_result) list) StreamProcessor)
      \<noteq> None"
    by (simp add: run_simps)
  have h3: "\<not> has_complete_frame
      (frame_buffer (ready [] :: (SystemState, (exn + vad_result) list) StreamProcessor))"
    by (simp add: run_simps)
  from chunk_boundaries [OF h1 h2, of 0 "silence 3" "silence 524289"] h1 h2 h3
  show ?thesis by (simp add: silence_def)
qed

text \<open>
  Claim C4, as it is stated, fails for the empty chunk: after a call in which the oracle
  raised on the first of two frames, the second frame is still in the buffer, and the
  empty chunk returns its frame-level result.
\<close>

theorem empty_chunk_after_failure_returns_a_result:
  "vad_iterator after_failure \<noteq> None
   \<and> fst (process_chunk spec_manager scripted after_failure [] 0) =
       Inr [\<lparr>result_type = ''frame'',
              frame = Some \<lparr>frame_id = 1, audio_data = silence 1024, timestamp_ms = 32,
                            vad_result = None\<rparr>,
              segment = None, interruption = None, instance_id = ''stream_processor''\<rparr>]"
  by (simp add: after_failure_def run_simps)

text \<open>
  Claim C5. On an initialized session a chunk of odd length or of more than 512 KiB is
  rejected with an input error and the session is exactly as before the call: buffer, frame
  counter, state machine and counters. Whenever \<^verbatim>\<open>process_chunk\<close> raises an input error, the
  session is as before the call.
\<close>

theorem input_error_leaves_session_unchanged:
  assumes "vad_iterator s \<noteq> None"
  shows "(odd (length audio) \<or> MAX_CHUNK_SIZE < length audio
            \<longrightarrow> (\<exists>e. InputError e \<and> process_chunk mgr vad s audio elapsed = (Inl e, s)))
       \<and> (\<forall>e s'. process_chunk mgr vad s audio elapsed = (Inl e, s') \<and> InputError e
            \<longrightarrow> s' = s)"
proof (intro conjI impI allI)
  assume h: "odd (length audio) \<or> MAX_CHUNK_SIZE < length audio"
  then have "length audio \<noteq> 0" by (auto simp: MAX_CHUNK_SIZE_def)
  moreover from h have "MAX_CHUNK_SIZE < length audio \<or> length audio mod 2 \<noteq> 0"
    by (auto simp: odd_iff_mod_2_eq_one)
  ultimately show "\<exists>e. InputError e \<and> process_chunk mgr vad s audio elapsed = (Inl e, s)"
    using assms
    by (auto simp: process_chunk_def validate_audio_chunk_def InputError_def Let_def)
next
  fix e s'
  assume "process_chunk mgr vad s audio elapsed = (Inl e, s') \<and> InputError e"
  then show "s' = s"
    by (auto simp: process_chunk_def process_chunk_internal_def InputError_def
        split: if_splits sum.splits prod.splits)
qed

text \<open>A session that has processed one frame rejects three bytes and 524290 bytes.\<close>

theorem input_error_leaves_session_unchanged_witness:
  "vad_iterator first_chunk \<noteq> None
   \<and> (\<exists>e. InputError e
          \<and> process_chunk spec_manager scripted first_chunk (silence 3) 0 = (Inl e, first_chunk))
   \<and> (\<exists>e. InputError e
          \<and> process_chunk spec_manager scripted first_chunk (silence 524290) 0
              = (Inl e, first_chunk))"
proof -
  have h: "vad_iterator first_chunk \<noteq> None"
    by (simp add: first_chunk_def run_simps)
  from input_error_leaves_session_unchanged [OF h, of "silence 3" spec_manager scripted 0]
    input_error_leaves_session_unchanged [OF h, of "silence 524290" spec_manager scripted 0] h
  show ?thesis by (simp add: silence_def MAX_CHUNK_SIZE_def)
qed

section \<open>Health warnings\<close>

lemma get_stats_no_warning_up_to_ten:
  "total_chunks_processed s \<le> 10 \<Longrightarrow> snd (get_stats s) = []"
  by (simp add: get_stats_def Let_def)

text \<open>
  Claim C8 at ten processed chunks. With an average latency of 200 ms and an error rate of
  one half, \<^verbatim>\<open>get_stats\<close> writes no warning after ten chunks; it writes both after eleven.
\<close>

theorem get_stats_silent_at_ten_chunks:
  "total_chunks_processed ten_chunks = 10
   \<and> average_processing_time_ms (fst (get_stats ten_chunks)) = 200
   \<and> error_rate (fst (get_stats ten_chunks)) = 1 / 2
   \<and> snd (get_stats ten_chunks) = []
   \<and> snd (get_stats (ten_chunks\<lparr>total_chunks_processed := 11,
                                total_processing_time_ms := 2200\<rparr>))
       = [SLOW_PROCESSING, HIGH_ERROR_RATE]"
  by (simp add: get_stats_def ten_chunks_def StreamProcessor_init_def Let_def)

end
